theory Spec2Isabelle
  imports Main "HOL-Library.Product_Lexorder"
begin

section \<open>Python values shared by the two scripts\<close>

text \<open>
  Strings are lists of characters. The scripts handle ASCII text (rule numbers, file
  paths, line numbers, diff headers); on ASCII text Python's \<open>len\<close>, which counts code
  points, and the number of UTF-8 bytes written to a file agree, and \<open>\d\<close> and \<open>\s\<close>
  match the ASCII digits and the ASCII white space below.
\<close>

text \<open>
  The exception classes the scripts can meet. \<open>HTTPError\<close> is a subclass of
  \<open>URLError\<close>; \<open>URLError\<close> and \<open>ConnectionResetError\<close> are subclasses of
  \<open>OSError\<close>, neither of the other; \<open>JSONDecodeError\<close> and \<open>UnicodeDecodeError\<close>
  are subclasses of \<open>ValueError\<close>; \<open>KeyboardInterrupt\<close> is a \<open>BaseException\<close> that
  is not an \<open>Exception\<close>.
\<close>

datatype py_exception =
    ValueError
  | TypeError
  | KeyError
  | OSError
  | ConnectionResetError
  | URLError
  | HTTPError
  | JSONDecodeError
  | UnicodeDecodeError
  | KeyboardInterrupt

definition is_Exception :: "py_exception \<Rightarrow> bool" where
  "is_Exception e = (e \<noteq> KeyboardInterrupt)"

definition is_digit :: "char \<Rightarrow> bool" where
  "is_digit c = (48 \<le> (of_char c :: nat) \<and> (of_char c :: nat) \<le> 57)"

definition is_space :: "char \<Rightarrow> bool" where
  "is_space c = ((of_char c :: nat) \<in> {9, 10, 11, 12, 13, 28, 29, 30, 31, 32})"

definition digit_val :: "char \<Rightarrow> int" where
  "digit_val c = int (of_char c) - 48"

text \<open>The value of a string of decimal digits, as \<open>int\<close> computes it.\<close>

definition int_of_digits :: "string \<Rightarrow> int" where
  "int_of_digits ds = foldl (\<lambda>a c. 10 * a + digit_val c) 0 ds"

text \<open>
  \<open>int(s)\<close> for a string. On an ASCII string the white space dropped around the
  number is that of C (tab, line feed, vertical tab, form feed, carriage return, space);
  one sign may lead, and the digits may be grouped by single underscores; anything else
  raises \<open>ValueError\<close>. So does a number of more digits than the interpreter's limit,
  4300 unless it is configured otherwise, which the scripts do not do.
\<close>

definition is_c_space :: "char \<Rightarrow> bool" where
  "is_c_space c = ((of_char c :: nat) \<in> {9, 10, 11, 12, 13, 32})"

definition strip :: "string \<Rightarrow> string" where
  "strip s = rev (dropWhile is_c_space (rev (dropWhile is_c_space s)))"

fun digit_groups :: "string \<Rightarrow> bool" where
  "digit_groups [] = False"
| "digit_groups [c] = is_digit c"
| "digit_groups (c # d # cs) =
     (is_digit c \<and> (if d = CHR ''_'' then digit_groups cs else digit_groups (d # cs)))"

definition int_max_str_digits :: int where
  "int_max_str_digits = 4300"

definition py_int :: "string \<Rightarrow> py_exception + int" where
  "py_int s =
     (let t = strip s;
          negative = (t \<noteq> [] \<and> hd t = CHR ''-'');
          body = (if t \<noteq> [] \<and> (hd t = CHR ''-'' \<or> hd t = CHR ''+'') then tl t else t)
      in if digit_groups body \<and> int (length (filter is_digit body)) \<le> int_max_str_digits
         then Inr ((if negative then - 1 else 1) * int_of_digits (filter is_digit body))
         else Inl ValueError)"

text \<open>\<open>s.startswith(p)\<close>\<close>

definition startswith :: "string \<Rightarrow> string \<Rightarrow> bool" where
  "startswith s p = (take (length p) s = p)"

text \<open>\<open>s.split(sep)\<close> for a separator of one character: never an empty list.\<close>

fun split_char :: "char \<Rightarrow> string \<Rightarrow> string list" where
  "split_char sep [] = [[]]"
| "split_char sep (c # cs) =
     (if c = sep then [] # split_char sep cs
      else (case split_char sep cs of
              l # ls \<Rightarrow> (c # l) # ls
            | [] \<Rightarrow> [[c]]))"

section \<open>filter_cppcheck_result.py: changed line ranges\<close>

subsection \<open>parse_diff_ranges\<close>

text \<open>
  \<open>re.search(r"\+(\d+)(?:,(\d+))?", line)\<close>: the leftmost \<open>+\<close> that a digit follows.
  Group 1 is the longest run of digits after it; group 2 is the longest run of digits
  after a comma that follows group 1 directly, and is absent when there is no such
  comma or no digit after it. Both quantifiers are greedy and the pattern matches with
  the greedy choice, so no backtracking takes place.
\<close>

fun search_plus :: "string \<Rightarrow> (string \<times> string option) option" where
  "search_plus [] = None"
| "search_plus (c # cs) =
     (if c = CHR ''+'' \<and> takeWhile is_digit cs \<noteq> [] then
        (case dropWhile is_digit cs of
           d # rest \<Rightarrow>
             (if d = CHR '','' \<and> takeWhile is_digit rest \<noteq> []
              then Some (takeWhile is_digit cs, Some (takeWhile is_digit rest))
              else Some (takeWhile is_digit cs, None))
         | [] \<Rightarrow> Some (takeWhile is_digit cs, None))
      else search_plus cs)"

text \<open>
  The body of the loop of \<open>parse_diff_ranges\<close> for one line: the ranges it appends, or
  the \<open>ValueError\<close> of \<open>int\<close> on a group of too many digits (group 1 is converted
  first).
\<close>

definition line_ranges :: "string \<Rightarrow> py_exception + (int \<times> int) list" where
  "line_ranges line =
     (if startswith line ''@@'' then
        (case search_plus line of
           Some (g1, g2) \<Rightarrow>
             (case py_int g1 of
                Inl e \<Rightarrow> Inl e
              | Inr start \<Rightarrow>
                  (case (case g2 of Some g \<Rightarrow> py_int g | None \<Rightarrow> Inr 1) of
                     Inl e \<Rightarrow> Inl e
                   | Inr count \<Rightarrow>
                       Inr (if count > 0 then [(start, start + count - 1)] else [])))
         | None \<Rightarrow> Inr [])
      else Inr [])"

fun parse_lines ::
  "(int \<times> int) list \<Rightarrow> string list \<Rightarrow> py_exception + (int \<times> int) list" where
  "parse_lines ranges [] = Inr ranges"
| "parse_lines ranges (line # lines) =
     (case line_ranges line of
        Inl e \<Rightarrow> Inl e
      | Inr new \<Rightarrow> parse_lines (ranges @ new) lines)"

definition parse_diff_ranges :: "string \<Rightarrow> py_exception + (int \<times> int) list" where
  "parse_diff_ranges diff_output = parse_lines [] (split_char (CHR 0x0A) diff_output)"

subsection \<open>is_line_in_ranges\<close>

text \<open>The path for at most five ranges: \<open>any(start <= line_num <= end for ...)\<close>.\<close>

definition in_range :: "int \<Rightarrow> int \<times> int \<Rightarrow> bool" where
  "in_range line_num r = (fst r \<le> line_num \<and> line_num \<le> snd r)"

definition is_line_in_ranges_linear :: "int \<Rightarrow> (int \<times> int) list \<Rightarrow> bool" where
  "is_line_in_ranges_linear line_num ranges = list_ex (in_range line_num) ranges"

text \<open>
  \<open>bisect.bisect_left(a, x)\<close>, the loop of the standard library:
  \<^verbatim>\<open>
  while lo < hi:
      mid = (lo + hi) // 2
      if a[mid] < x: lo = mid + 1
      else: hi = mid
  return lo
  \<close>
  Tuples compare lexicographically, which is the order of pairs here.
\<close>

function bisect_loop :: "('a::linorder) list \<Rightarrow> 'a \<Rightarrow> nat \<Rightarrow> nat \<Rightarrow> nat" where
  "bisect_loop a x lo hi =
     (if lo < hi then
        (if a ! ((lo + hi) div 2) < x
         then bisect_loop a x ((lo + hi) div 2 + 1) hi
         else bisect_loop a x lo ((lo + hi) div 2))
      else lo)"
  by pat_completeness auto
termination
  by (relation "measure (\<lambda>(a, x, lo, hi). hi - lo)") auto

declare bisect_loop.simps [simp del]

definition bisect_left :: "('a::linorder) list \<Rightarrow> 'a \<Rightarrow> nat" where
  "bisect_left a x = bisect_loop a x 0 (length a)"

text \<open>
  The test of one candidate index \<open>i\<close> of \<open>[idx - 1, idx]\<close>: inside the list and the
  line inside the range there.
\<close>

definition hit_at :: "int \<Rightarrow> (int \<times> int) list \<Rightarrow> int \<Rightarrow> bool" where
  "hit_at line_num sorted_ranges i =
     (0 \<le> i \<and> i < int (length sorted_ranges) \<and> in_range line_num (sorted_ranges ! nat i))"

text \<open>The path for more than five ranges: sort, bisect, look at two neighbours.\<close>

definition is_line_in_ranges_bisect :: "int \<Rightarrow> (int \<times> int) list \<Rightarrow> bool" where
  "is_line_in_ranges_bisect line_num ranges =
     (let sorted_ranges = sort ranges;
          idx = int (bisect_left sorted_ranges (line_num, line_num))
      in hit_at line_num sorted_ranges (idx - 1) \<or> hit_at line_num sorted_ranges idx)"

definition is_line_in_ranges :: "int \<Rightarrow> (int \<times> int) list \<Rightarrow> bool" where
  "is_line_in_ranges line_num ranges =
     (if length ranges \<le> 5 then is_line_in_ranges_linear line_num ranges
      else is_line_in_ranges_bisect line_num ranges)"

subsection \<open>get_changed_ranges\<close>

text \<open>
  \<open>re.match(r"^[a-zA-Z0-9._/-]+\.\.\.[a-zA-Z0-9._/-]+$", git_diff_range)\<close>: every
  character is of the class, and three dots stand somewhere with at least one character
  before and after them (a dot is itself of the class). \<open>$\<close> also matches before one
  final newline.
\<close>

definition is_ref_char :: "char \<Rightarrow> bool" where
  "is_ref_char c =
     (is_digit c
      \<or> (65 \<le> (of_char c :: nat) \<and> (of_char c :: nat) \<le> 90)
      \<or> (97 \<le> (of_char c :: nat) \<and> (of_char c :: nat) \<le> 122)
      \<or> c = CHR ''.'' \<or> c = CHR ''_'' \<or> c = CHR ''/'' \<or> c = CHR ''-'')"

definition valid_git_diff_range :: "string \<Rightarrow> bool" where
  "valid_git_diff_range s =
     (let body = (if s \<noteq> [] \<and> last s = CHR 0x0A then butlast s else s)
      in list_all is_ref_char body
         \<and> list_ex (\<lambda>i. take 3 (drop i body) = ''...'') [1 ..< length body - 3])"

text \<open>
  What \<open>subprocess.run(cmd, capture_output=True, text=True)\<close> gives back: an exception
  (the program is missing, its output is not text, ...) or a completed process. A
  non-zero return code is no exception, since \<open>check\<close> is not set.
\<close>

record completed_process =
  returncode :: int
  stdout :: string
  stderr :: string

type_synonym subprocess_run = "string list \<Rightarrow> py_exception + completed_process"

definition git_diff_cmd :: "string \<Rightarrow> string \<Rightarrow> string \<Rightarrow> string list" where
  "git_diff_cmd source_dir git_diff_range file_path =
     [''git'', ''-C'', source_dir, ''diff'', ''-U0'', git_diff_range, ''--'', file_path]"

text \<open>The body of the \<open>try\<close>: run the command, parse what it printed.\<close>

definition changed_ranges_body :: "subprocess_run \<Rightarrow> string list \<Rightarrow> py_exception + (int \<times> int) list" where
  "changed_ranges_body run cmd =
     (case run cmd of
        Inl e \<Rightarrow> Inl e
      | Inr result \<Rightarrow> parse_diff_ranges (stdout result))"

text \<open>
  The format check raises outside the \<open>try\<close>; \<open>except Exception\<close> turns every
  exception of the body that is an \<open>Exception\<close> into the empty list.
\<close>

definition get_changed_ranges ::
  "subprocess_run \<Rightarrow> string \<Rightarrow> string \<Rightarrow> string \<Rightarrow> py_exception + (int \<times> int) list" where
  "get_changed_ranges run file_path git_diff_range source_dir =
     (if \<not> valid_git_diff_range git_diff_range then Inl ValueError
      else (case changed_ranges_body run (git_diff_cmd source_dir git_diff_range file_path) of
              Inr ranges \<Rightarrow> Inr ranges
            | Inl e \<Rightarrow> (if is_Exception e then Inr [] else Inl e)))"

section \<open>filter_cppcheck_result.py: the findings\<close>

subsection \<open>XML elements\<close>

text \<open>
  An \<open>Element\<close> of ElementTree: its tag, its attribute dictionary and its children in
  document order. Python's list of elements is a list of object references, and two
  elements with equal content are still two objects; \<open>oid\<close> is that identity.
\<close>

datatype element =
  Element (oid: nat) (tag: string) (attrib: "(string \<times> string) list") (children: "element list")

text \<open>\<open>elem.get(key)\<close> and \<open>elem.get(key, default)\<close> for a string default.\<close>

definition get :: "element \<Rightarrow> string \<Rightarrow> string option" where
  "get elem key = map_of (attrib elem) key"

definition get_default :: "element \<Rightarrow> string \<Rightarrow> string \<Rightarrow> string" where
  "get_default elem key dflt = (case get elem key of Some v \<Rightarrow> v | None \<Rightarrow> dflt)"

text \<open>\<open>elem.findall(t)\<close>: the children with tag \<open>t\<close>.\<close>

definition findall :: "element \<Rightarrow> string \<Rightarrow> element list" where
  "findall elem t = filter (\<lambda>c. tag c = t) (children elem)"

text \<open>\<open>elem.findall(".//" + t)\<close>: the descendants with tag \<open>t\<close>, in document order.\<close>

fun descendants :: "element \<Rightarrow> element list" where
  "descendants (Element i t a cs) = concat (map (\<lambda>c. c # descendants c) cs)"

definition findall_descendants :: "element \<Rightarrow> string \<Rightarrow> element list" where
  "findall_descendants elem t = filter (\<lambda>c. tag c = t) (descendants elem)"

subsection \<open>filter_errors_by_changed_lines\<close>

text \<open>\<open>int(location.get("line", 0))\<close>\<close>

definition location_line :: "element \<Rightarrow> py_exception + int" where
  "location_line location = (case get location ''line'' of None \<Rightarrow> Inr 0 | Some s \<Rightarrow> py_int s)"

type_synonym ranges_cache = "string \<rightharpoonup> (int \<times> int) list"

text \<open>The cache lookup, filled on a miss by \<open>get_changed_ranges\<close>.\<close>

definition cached_ranges ::
  "subprocess_run \<Rightarrow> string \<Rightarrow> string \<Rightarrow> ranges_cache \<Rightarrow> string
     \<Rightarrow> py_exception + (ranges_cache \<times> (int \<times> int) list)" where
  "cached_ranges run git_diff_range source_dir cache file_path =
     (case cache file_path of
        Some ranges \<Rightarrow> Inr (cache, ranges)
      | None \<Rightarrow>
          (case get_changed_ranges run file_path git_diff_range source_dir of
             Inl e \<Rightarrow> Inl e
           | Inr ranges \<Rightarrow> Inr (cache(file_path \<mapsto> ranges), ranges)))"

text \<open>
  The inner loop over the locations of one error. The flag of the result says whether
  the loop left by \<open>break\<close>, after appending the error.
\<close>

fun scan_locations ::
  "subprocess_run \<Rightarrow> string \<Rightarrow> string \<Rightarrow> ranges_cache \<Rightarrow> element list
     \<Rightarrow> py_exception + (ranges_cache \<times> bool)" where
  "scan_locations run git_diff_range source_dir cache [] = Inr (cache, False)"
| "scan_locations run git_diff_range source_dir cache (location # locations) =
     (case location_line location of
        Inl e \<Rightarrow> Inl e
      | Inr line_num \<Rightarrow>
          (case get location ''file'' of
             None \<Rightarrow> scan_locations run git_diff_range source_dir cache locations
           | Some file_path \<Rightarrow>
               (if file_path \<noteq> [] \<and> line_num > 0 then
                  (case cached_ranges run git_diff_range source_dir cache file_path of
                     Inl e \<Rightarrow> Inl e
                   | Inr (cache', ranges) \<Rightarrow>
                       (if is_line_in_ranges line_num ranges then Inr (cache', True)
                        else scan_locations run git_diff_range source_dir cache' locations))
                else scan_locations run git_diff_range source_dir cache locations)))"

text \<open>The outer loop over the errors, with the list built so far and the cache.\<close>

fun filter_loop ::
  "subprocess_run \<Rightarrow> string \<Rightarrow> string \<Rightarrow> ranges_cache \<Rightarrow> element list \<Rightarrow> element list
     \<Rightarrow> py_exception + element list" where
  "filter_loop run git_diff_range source_dir cache filtered_errors [] = Inr filtered_errors"
| "filter_loop run git_diff_range source_dir cache filtered_errors (err # errs) =
     (if \<not> startswith (get_default err ''id'' '''') ''misra-c2012''
      then filter_loop run git_diff_range source_dir cache filtered_errors errs
      else (case scan_locations run git_diff_range source_dir cache (findall err ''location'') of
              Inl e \<Rightarrow> Inl e
            | Inr (cache', hit) \<Rightarrow>
                filter_loop run git_diff_range source_dir cache'
                  (if hit then filtered_errors @ [err] else filtered_errors) errs))"

definition filter_errors_by_changed_lines ::
  "subprocess_run \<Rightarrow> element \<Rightarrow> string \<Rightarrow> string \<Rightarrow> py_exception + element list" where
  "filter_errors_by_changed_lines run root git_diff_range source_dir =
     filter_loop run git_diff_range source_dir Map.empty [] (findall_descendants root ''error'')"

subsection \<open>write_csv_output\<close>

text \<open>
  \<open>csv.writer(csvfile).writerow(cells)\<close> in the default dialect: a field holding a
  comma, a double quote, a carriage return or a line feed is put in double quotes with
  its double quotes doubled; the cells are joined by commas and the row ends with
  carriage return and line feed. The file is opened with \<open>newline=""\<close>, so nothing
  translates that ending. (A row of one empty field is written differently; every row
  here has five cells.)
\<close>

definition csv_special :: "char \<Rightarrow> bool" where
  "csv_special c = (c = CHR '','' \<or> c = CHR 0x22 \<or> c = CHR 0x0D \<or> c = CHR 0x0A)"

definition csv_field :: "string \<Rightarrow> string" where
  "csv_field f =
     (if list_ex csv_special f
      then [CHR 0x22] @ concat (map (\<lambda>c. if c = CHR 0x22 then [c, c] else [c]) f) @ [CHR 0x22]
      else f)"

text \<open>\<open>sep.join(parts)\<close>\<close>

fun join :: "string \<Rightarrow> string list \<Rightarrow> string" where
  "join sep [] = []"
| "join sep [p] = p"
| "join sep (p # q # ps) = p @ sep @ join sep (q # ps)"

definition csv_row :: "string list \<Rightarrow> string" where
  "csv_row cells = join '','' (map csv_field cells) @ [CHR 0x0D, CHR 0x0A]"

definition csv_header :: "string list" where
  "csv_header = [''misra-c2012-rule'', ''severity'', ''file'', ''line'', ''column'']"

text \<open>
  \<open>s.replace(old, new)\<close> for a non-empty \<open>old\<close>: every occurrence, from the left,
  without overlap. (The script's \<open>old\<close> is the literal \<open>misra-c2012-\<close>.)
\<close>

fun replace :: "string \<Rightarrow> string \<Rightarrow> string \<Rightarrow> string" where
  "replace old new [] = []"
| "replace old new (c # cs) =
     (if old \<noteq> [] \<and> startswith (c # cs) old
      then new @ replace old new (drop (length old - 1) cs)
      else c # replace old new cs)"

text \<open>
  The size test of one row: \<open>if max_size:\<close> holds for a number other than zero, the
  position \<open>csvfile.tell()\<close> is the number of bytes written so far, and \<open>row_size\<close> is
  the length of the f-string: the five cells as they are, four commas, one line feed.
\<close>

definition row_size :: "string list \<Rightarrow> nat" where
  "row_size cells = length (join '','' cells @ [CHR 0x0A])"

definition limit_reached :: "int option \<Rightarrow> string \<Rightarrow> string list \<Rightarrow> bool" where
  "limit_reached max_size csvfile cells =
     (case max_size of
        None \<Rightarrow> False
      | Some m \<Rightarrow> m \<noteq> 0 \<and> int (length csvfile) + int (row_size cells) > m)"

text \<open>
  The loop over the locations of one error, on the content of the file so far. The flag
  says whether the function returned at the size limit.
\<close>

fun write_locations ::
  "int option \<Rightarrow> string \<Rightarrow> string \<Rightarrow> string \<Rightarrow> element list \<Rightarrow> string \<times> bool" where
  "write_locations max_size error_id severity csvfile [] = (csvfile, False)"
| "write_locations max_size error_id severity csvfile (location # locations) =
     (let cells = [error_id, severity, get_default location ''file'' '''',
                    get_default location ''line'' '''', get_default location ''column'' '''']
      in if limit_reached max_size csvfile cells then (csvfile, True)
         else write_locations max_size error_id severity (csvfile @ csv_row cells) locations)"

fun write_errors :: "int option \<Rightarrow> string \<Rightarrow> element list \<Rightarrow> string" where
  "write_errors max_size csvfile [] = csvfile"
| "write_errors max_size csvfile (err # errs) =
     (case write_locations max_size
             (replace ''misra-c2012-'' '''' (get_default err ''id'' ''''))
             (get_default err ''severity'' '''') csvfile (findall err ''location'') of
        (csvfile', True) \<Rightarrow> csvfile'
      | (csvfile', False) \<Rightarrow> write_errors max_size csvfile' errs)"

text \<open>The content of the output file once \<open>write_csv_output\<close> has returned.\<close>

definition write_csv_output :: "element list \<Rightarrow> int option \<Rightarrow> string" where
  "write_csv_output filtered_errors max_size =
     write_errors max_size (csv_row csv_header) filtered_errors"

section \<open>convert_misra_rules.py\<close>

subsection \<open>JSON values\<close>

text \<open>
  What \<open>json.loads\<close> returns: \<open>None\<close>, a bool, a number (kept as its literal), a
  string, a list or a dict (its items in order, each key once).
\<close>

datatype json =
    JNull
  | JBool bool
  | JNumber string
  | JString string
  | JArray "json list"
  | JObject "(string \<times> json) list"

text \<open>
  \<open>v[key]\<close> for a string key: a dict answers or raises \<open>KeyError\<close>; nothing else can
  be indexed by a string.
\<close>

definition getitem :: "json \<Rightarrow> string \<Rightarrow> py_exception + json" where
  "getitem v key =
     (case v of
        JObject items \<Rightarrow> (case map_of items key of Some x \<Rightarrow> Inr x | None \<Rightarrow> Inl KeyError)
      | _ \<Rightarrow> Inl TypeError)"

text \<open>
  \<open>for x in v\<close>: a list gives its elements, a dict its keys, a string its characters;
  nothing else can be iterated.
\<close>

definition iterate :: "json \<Rightarrow> py_exception + json list" where
  "iterate v =
     (case v of
        JArray xs \<Rightarrow> Inr xs
      | JObject items \<Rightarrow> Inr (map (\<lambda>kv. JString (fst kv)) items)
      | JString s \<Rightarrow> Inr (map (\<lambda>c. JString [c]) s)
      | _ \<Rightarrow> Inl TypeError)"

subsection \<open>extract_rules\<close>

text \<open>
  \<open>(Rule|Directive)\s+(\d+\.\d+)\<close> tried at the start of a string; the result is
  group 2. White space, digits and the dot are disjoint classes, so each greedy
  quantifier takes the whole run and no other choice can match.
\<close>

definition match_rule :: "string \<Rightarrow> string option" where
  "match_rule s =
     (let keyword = (if startswith s ''Rule'' then Some ''Rule''
                     else if startswith s ''Directive'' then Some ''Directive''
                     else None)
      in case keyword of
           None \<Rightarrow> None
         | Some k \<Rightarrow>
             (let r0 = drop (length k) s;
                  r1 = dropWhile is_space r0;
                  major = takeWhile is_digit r1;
                  r2 = dropWhile is_digit r1;
                  minor = takeWhile is_digit (tl r2)
              in if takeWhile is_space r0 \<noteq> [] \<and> major \<noteq> [] \<and> r2 \<noteq> []
                    \<and> hd r2 = CHR ''.'' \<and> minor \<noteq> []
                 then Some (major @ ''.'' @ minor)
                 else None))"

text \<open>\<open>re.search\<close>: the match at the leftmost position that has one.\<close>

fun search_rule :: "string \<Rightarrow> string option" where
  "search_rule [] = None"
| "search_rule (c # cs) =
     (case match_rule (c # cs) of
        Some rule_num \<Rightarrow> Some rule_num
      | None \<Rightarrow> search_rule cs)"

fun extract_loop :: "string list \<Rightarrow> json list \<Rightarrow> py_exception + string list" where
  "extract_loop rules [] = Inr rules"
| "extract_loop rules (deviation # deviations) =
     (case getitem deviation ''deviation'' of
        Inl e \<Rightarrow> Inl e
      | Inr (JString text) \<Rightarrow>
          (case search_rule text of
             Some rule_num \<Rightarrow> extract_loop (rules @ [''misra-c2012-'' @ rule_num]) deviations
           | None \<Rightarrow> extract_loop rules deviations)
      | Inr _ \<Rightarrow> Inl TypeError)"

definition extract_rules :: "json \<Rightarrow> py_exception + string list" where
  "extract_rules deviations =
     (case iterate deviations of
        Inl e \<Rightarrow> Inl e
      | Inr ds \<Rightarrow> extract_loop [] ds)"

subsection \<open>fetch_misra_rules\<close>

definition URL :: string where
  "URL = ''https://raw.githubusercontent.com/FreeRTOS/FreeRTOS-Kernel/main/examples/coverity/coverity_misra.config''"

text \<open>
  The network and the JSON parser are parameters: \<open>urlopen url\<close> is the outcome of
  opening the URL, reading the response and decoding it (the text, or the exception
  raised on the way), \<open>loads\<close> is \<open>json.loads\<close>.
\<close>

type_synonym url_open = "string \<Rightarrow> py_exception + string"
type_synonym json_loads = "string \<Rightarrow> py_exception + json"

text \<open>The body of the \<open>try\<close>.\<close>

definition fetch_body :: "url_open \<Rightarrow> json_loads \<Rightarrow> py_exception + string list" where
  "fetch_body urlopen loads =
     (case urlopen URL of
        Inl e \<Rightarrow> Inl e
      | Inr text \<Rightarrow>
          (case loads text of
             Inl e \<Rightarrow> Inl e
           | Inr data \<Rightarrow>
               (case getitem data ''deviations'' of
                  Inl e \<Rightarrow> Inl e
                | Inr deviations \<Rightarrow> extract_rules deviations)))"

text \<open>\<open>except (urllib.error.URLError, json.JSONDecodeError)\<close>, subclasses included.\<close>

definition caught :: "py_exception \<Rightarrow> bool" where
  "caught e = (e = URLError \<or> e = HTTPError \<or> e = JSONDecodeError)"

definition fetch_misra_rules :: "url_open \<Rightarrow> json_loads \<Rightarrow> py_exception + string list" where
  "fetch_misra_rules urlopen loads =
     (case fetch_body urlopen loads of
        Inl e \<Rightarrow> (if caught e then Inr [] else Inl e)
      | Inr rules \<Rightarrow> Inr rules)"

subsection \<open>write_config_file and main\<close>

definition static_rules :: "string list" where
  "static_rules =
     [''missingIncludeSystem'', ''checkersReport'', ''unmatchedSuppression'', ''misra-config'']"

text \<open>The text written to the file: every rule followed by a line feed.\<close>

definition write_config_file :: "string list \<Rightarrow> string" where
  "write_config_file rules = concat (map (\<lambda>rule. rule @ [CHR 0x0A]) (static_rules @ rules))"

text \<open>
  \<open>main\<close>: the text of the suppression file it leaves, or the exception that escapes
  \<open>fetch_misra_rules\<close> before any file is written.
\<close>

definition main :: "url_open \<Rightarrow> json_loads \<Rightarrow> py_exception + string" where
  "main urlopen loads =
     (case fetch_misra_rules urlopen loads of
        Inl e \<Rightarrow> Inl e
      | Inr rules \<Rightarrow> Inr (write_config_file rules))"

section \<open>Example inputs\<close>

text \<open>
  The output of \<open>git diff -U0\<close> for a file with one hunk that adds three lines; git
  puts the enclosing function after the header.
\<close>

definition example_diff :: string where
  "example_diff =
     ''diff --git a/tasks.c b/tasks.c'' @ [CHR 0x0A] @
     ''index 1111111..2222222 100644'' @ [CHR 0x0A] @
     ''--- a/tasks.c'' @ [CHR 0x0A] @
     ''+++ b/tasks.c'' @ [CHR 0x0A] @
     ''@@ -10,0 +15,3 @@ void vTaskDelay( void )'' @ [CHR 0x0A] @
     ''+    x = 1;'' @ [CHR 0x0A] @
     ''+    y = x + 2;'' @ [CHR 0x0A] @
     ''+    z = y;'' @ [CHR 0x0A]"

text \<open>A repository in which only \<open>tasks.c\<close> has changed, by that hunk.\<close>

definition example_run :: subprocess_run where
  "example_run cmd =
     (if cmd = git_diff_cmd ''.'' ''origin/main...HEAD'' ''tasks.c''
      then Inr \<lparr>returncode = 0, stdout = example_diff, stderr = ''''\<rparr>
      else Inr \<lparr>returncode = 0, stdout = '''', stderr = ''''\<rparr>)"

definition location :: "nat \<Rightarrow> string \<Rightarrow> string \<Rightarrow> string \<Rightarrow> element" where
  "location i file line column =
     Element i ''location'' [(''file'', file), (''line'', line), (''column'', column)] []"

definition finding_16 :: element where
  "finding_16 =
     Element 1 ''error''
       [(''id'', ''misra-c2012-1.2''), (''severity'', ''style''), (''msg'', ''deviation'')]
       [location 21 ''tasks.c'' ''16'' ''1'']"

definition finding_20 :: element where
  "finding_20 =
     Element 2 ''error''
       [(''id'', ''misra-c2012-8.4''), (''severity'', ''style''), (''msg'', ''deviation'')]
       [location 22 ''tasks.c'' ''20'' ''5'']"

text \<open>A finding of another checker on a changed line.\<close>

definition finding_other :: element where
  "finding_other =
     Element 3 ''error''
       [(''id'', ''nullPointer''), (''severity'', ''error''), (''msg'', ''null'')]
       [location 23 ''tasks.c'' ''16'' ''9'']"

text \<open>A finding with three locations, two of them on changed lines.\<close>

definition finding_multi :: element where
  "finding_multi =
     Element 4 ''error''
       [(''id'', ''misra-c2012-10.4''), (''severity'', ''style''), (''msg'', ''deviation'')]
       [location 24 ''queue.c'' ''16'' ''1'', location 25 ''tasks.c'' ''15'' ''1'',
        location 26 ''tasks.c'' ''17'' ''1'']"

definition results_16_20 :: element where
  "results_16_20 =
     Element 10 ''results'' [(''version'', ''2'')]
       [Element 11 ''cppcheck'' [(''version'', ''2.13'')] [],
        Element 12 ''errors'' [] [finding_16, finding_20]]"

definition results_mixed :: element where
  "results_mixed =
     Element 10 ''results'' [(''version'', ''2'')]
       [Element 11 ''cppcheck'' [(''version'', ''2.13'')] [],
        Element 12 ''errors'' [] [finding_16, finding_20, finding_other, finding_multi]]"

text \<open>Six ranges, the first of which contains the others.\<close>

definition overlapping_ranges :: "(int \<times> int) list" where
  "overlapping_ranges = [(1, 100), (2, 3), (4, 5), (6, 7), (8, 9), (10, 11)]"

text \<open>A deviation list as the configuration file holds it.\<close>

definition deviation_rule :: json where
  "deviation_rule =
     JObject [(''deviation'', JString ''Rule 1.2''),
              (''reason'', JString ''Language extensions are used.'')]"

definition deviation_directive :: json where
  "deviation_directive =
     JObject [(''deviation'', JString ''see Directive 4.1 (required)''),
              (''reason'', JString ''Run-time failures are minimised by review.'')]"

section \<open>Changed line ranges: properties\<close>

subsection \<open>parse_diff_ranges\<close>

lemma parse_lines_split:
  "parse_lines ranges (xs @ ys) =
     (case parse_lines ranges xs of Inl e \<Rightarrow> Inl e | Inr rs \<Rightarrow> parse_lines rs ys)"
  by (induction xs arbitrary: ranges) (simp_all split: sum.splits)

lemma line_ranges_other: "\<not> startswith l ''@@'' \<Longrightarrow> line_ranges l = Inr []"
  by (simp add: line_ranges_def)

lemma parse_lines_other:
  "\<forall>l\<in>set ls. \<not> startswith l ''@@'' \<Longrightarrow> parse_lines ranges ls = Inr ranges"
  by (induction ls arbitrary: ranges) (simp_all add: line_ranges_other)

lemma search_plus_header:
  "search_plus (''@@ -10,0 +15,3 @@'' @ ctx) = Some (''15'', Some ''3'')"
  by (simp add: is_digit_def)

lemma py_int_15: "py_int ''15'' = Inr 15"
  by code_simp

lemma py_int_3: "py_int ''3'' = Inr 3"
  by code_simp

lemma line_ranges_header: "line_ranges (''@@ -10,0 +15,3 @@'' @ ctx) = Inr [(15, 17)]"
  unfolding line_ranges_def search_plus_header
  by (simp add: startswith_def py_int_15 py_int_3)

text \<open>Every range that \<open>parse_diff_ranges\<close> returns has its start at or before its end.\<close>

lemma line_ranges_shape:
  "line_ranges l = Inr rs \<Longrightarrow> rs = [] \<or> (\<exists>s c. 0 < c \<and> rs = [(s, s + c - 1)])"
  unfolding line_ranges_def
  by (auto split: if_splits option.splits prod.splits sum.splits)

lemma parse_lines_ordered:
  assumes "parse_lines ranges ls = Inr rs"
    and "\<forall>r\<in>set ranges. fst r \<le> snd r"
  shows "\<forall>r\<in>set rs. fst r \<le> snd r"
  using assms
proof (induction ls arbitrary: ranges)
  case Nil
  then show ?case by simp
next
  case (Cons l ls)
  from Cons.prems(1) obtain new where
    n: "line_ranges l = Inr new" and p: "parse_lines (ranges @ new) ls = Inr rs"
    by (auto split: sum.splits)
  from line_ranges_shape [OF n] Cons.prems(2)
  have "\<forall>r\<in>set (ranges @ new). fst r \<le> snd r" by auto
  from Cons.IH [OF p this] show ?case .
qed

lemma parse_diff_ranges_ordered:
  "parse_diff_ranges d = Inr rs \<Longrightarrow> r \<in> set rs \<Longrightarrow> fst r \<le> snd r"
  using parse_lines_ordered [of "[]" "split_char (CHR 0x0A) d" rs]
  by (simp add: parse_diff_ranges_def)

text \<open>
  C6: a diff output whose only hunk header is \<open>@@ -10,0 +15,3 @@\<close>, with or without
  text after it on its line (no other line begins with \<open>@@\<close>), gives exactly the
  one range (15, 17).
\<close>

theorem parse_diff_ranges_single_hunk:
  assumes "split_char (CHR 0x0A) diff_output = before @ [''@@ -10,0 +15,3 @@'' @ ctx] @ after"
    and "\<forall>l\<in>set before \<union> set after. \<not> startswith l ''@@''"
  shows "parse_diff_ranges diff_output = Inr [(15, 17)]"
proof -
  define hdr where "hdr = ''@@ -10,0 +15,3 @@'' @ ctx"
  have lr: "line_ranges hdr = Inr [(15, 17)]"
    unfolding hdr_def by (rule line_ranges_header)
  have sp: "split_char (CHR 0x0A) diff_output = before @ hdr # after"
    using assms(1) by (simp add: hdr_def)
  have b: "parse_lines [] before = Inr []"
    using assms(2) by (intro parse_lines_other) simp
  have a: "parse_lines [(15, 17)] after = Inr [(15, 17)]"
    using assms(2) by (intro parse_lines_other) simp
  have "parse_lines [] (before @ hdr # after) = Inr [(15, 17)]"
    by (simp add: parse_lines_split b lr a)
  then show ?thesis
    by (simp add: parse_diff_ranges_def sp)
qed

text \<open>The theorem at \<open>example_diff\<close>, whose fifth line is the hunk header.\<close>

theorem parse_diff_ranges_single_hunk_witness:
  "split_char (CHR 0x0A) example_diff =
     [''diff --git a/tasks.c b/tasks.c'', ''index 1111111..2222222 100644'',
      ''--- a/tasks.c'', ''+++ b/tasks.c'']
     @ [''@@ -10,0 +15,3 @@'' @ '' void vTaskDelay( void )'']
     @ [''+    x = 1;'', ''+    y = x + 2;'', ''+    z = y;'', '''']
   \<and> parse_diff_ranges example_diff = Inr [(15, 17)]"
proof -
  have s: "split_char (CHR 0x0A) example_diff =
     [''diff --git a/tasks.c b/tasks.c'', ''index 1111111..2222222 100644'',
      ''--- a/tasks.c'', ''+++ b/tasks.c'']
     @ [''@@ -10,0 +15,3 @@'' @ '' void vTaskDelay( void )'']
     @ [''+    x = 1;'', ''+    y = x + 2;'', ''+    z = y;'', '''']"
    by code_simp
  have n: "\<forall>l\<in>set [''diff --git a/tasks.c b/tasks.c'', ''index 1111111..2222222 100644'',
                   ''--- a/tasks.c'', ''+++ b/tasks.c'']
              \<union> set [''+    x = 1;'', ''+    y = x + 2;'', ''+    z = y;'', ''''].
            \<not> startswith l ''@@''"
    by (simp add: startswith_def)
  from parse_diff_ranges_single_hunk [OF s n] s show ?thesis by simp
qed

subsection \<open>is_line_in_ranges\<close>


text \<open>
  On a sorted list, \<open>bisect_left\<close> returns the index that splits it into the elements
  below \<open>x\<close> and the others.
\<close>

lemma bisect_loop_spec:
  assumes "sorted a" and "lo \<le> hi" and "hi \<le> length a"
    and "\<forall>i<lo. a ! i < x"
    and "\<forall>i. hi \<le> i \<and> i < length a \<longrightarrow> x \<le> a ! i"
  shows "bisect_loop a x lo hi \<le> length a
         \<and> (\<forall>i<bisect_loop a x lo hi. a ! i < x)
         \<and> (\<forall>i. bisect_loop a x lo hi \<le> i \<and> i < length a \<longrightarrow> x \<le> a ! i)"
  using assms
proof (induction a x lo hi rule: bisect_loop.induct)
  case (1 a x lo hi)
  let ?mid = "(lo + hi) div 2"
  show ?case
  proof (cases "lo < hi")
    case False
    then have r: "bisect_loop a x lo hi = lo"
      by (simp add: bisect_loop.simps [of a x lo hi])
    from False "1.prems"(2) have "lo = hi" by simp
    with "1.prems" show ?thesis unfolding r by simp
  next
    case True
    then have mid: "lo \<le> ?mid" "?mid < hi" by simp_all
    show ?thesis
    proof (cases "a ! ?mid < x")
      case less: True
      have below: "\<forall>i<?mid + 1. a ! i < x"
      proof (intro allI impI)
        fix i assume "i < ?mid + 1"
        then have "i \<le> ?mid" by simp
        with \<open>sorted a\<close> mid "1.prems"(3) have "a ! i \<le> a ! ?mid"
          by (intro sorted_nth_mono) simp_all
        with less show "a ! i < x" by simp
      qed
      have "?mid + 1 \<le> hi" using mid by simp
      from "1.IH"(1) [OF True less \<open>sorted a\<close> this "1.prems"(3) below "1.prems"(5)]
      show ?thesis using True less by (simp add: bisect_loop.simps [of a x lo hi])
    next
      case geq: False
      have above: "\<forall>i. ?mid \<le> i \<and> i < length a \<longrightarrow> x \<le> a ! i"
      proof (intro allI impI)
        fix i assume i: "?mid \<le> i \<and> i < length a"
        with \<open>sorted a\<close> have "a ! ?mid \<le> a ! i"
          by (intro sorted_nth_mono) simp_all
        with geq show "x \<le> a ! i" by simp
      qed
      have "?mid \<le> length a" using mid "1.prems"(3) by simp
      from "1.IH"(2) [OF True geq \<open>sorted a\<close> mid(1) this "1.prems"(4) above]
      show ?thesis using True geq by (simp add: bisect_loop.simps [of a x lo hi])
    qed
  qed
qed

lemma bisect_left_spec:
  assumes "sorted a"
  shows "bisect_left a x \<le> length a
         \<and> (\<forall>i<bisect_left a x. a ! i < x)
         \<and> (\<forall>i. bisect_left a x \<le> i \<and> i < length a \<longrightarrow> x \<le> a ! i)"
proof -
  have lo: "\<forall>i<0. a ! i < x" by simp
  have hi: "\<forall>i. length a \<le> i \<and> i < length a \<longrightarrow> x \<le> a ! i" by auto
  show ?thesis
    unfolding bisect_left_def by (rule bisect_loop_spec [OF assms le0 order_refl lo hi])
qed

lemma hit_at_in_set: "hit_at line_num xs i \<Longrightarrow> \<exists>r\<in>set xs. in_range line_num r"
  by (auto simp: hit_at_def)

text \<open>
  Where the two paths agree: on ranges with start at or before end of which any two are
  equal or apart, as the hunks of one file are, the bisect path finds the line exactly
  when the linear scan does.
\<close>

lemma is_line_in_ranges_bisect_disjoint:
  assumes wf: "\<forall>r\<in>set ranges. fst r \<le> snd r"
    and disj: "\<forall>r\<in>set ranges. \<forall>r'\<in>set ranges. r = r' \<or> snd r < fst r' \<or> snd r' < fst r"
  shows "is_line_in_ranges_bisect line_num ranges = is_line_in_ranges_linear line_num ranges"
proof -
  define xs where "xs = sort ranges"
  define idx where "idx = bisect_left xs (line_num, line_num)"
  have srt: "sorted xs" and st: "set xs = set ranges" by (simp_all add: xs_def)
  from bisect_left_spec [OF srt, of "(line_num, line_num)"]
  have le: "idx \<le> length xs"
    and below: "\<And>i. i < idx \<Longrightarrow> xs ! i < (line_num, line_num)"
    and above: "\<And>i. idx \<le> i \<Longrightarrow> i < length xs \<Longrightarrow> (line_num, line_num) \<le> xs ! i"
    by (simp_all add: idx_def)
  have b: "is_line_in_ranges_bisect line_num ranges
            = (hit_at line_num xs (int idx - 1) \<or> hit_at line_num xs (int idx))"
    by (simp add: is_line_in_ranges_bisect_def xs_def idx_def Let_def)
  have l: "is_line_in_ranges_linear line_num ranges = (\<exists>r\<in>set xs. in_range line_num r)"
    by (simp add: is_line_in_ranges_linear_def list_ex_iff st)
  have "hit_at line_num xs (int idx - 1) \<or> hit_at line_num xs (int idx)"
    if r: "r \<in> set xs" and inr: "in_range line_num r" for r
  proof -
    from r obtain k where k: "k < length xs" "xs ! k = r" by (auto simp: in_set_conv_nth)
    from inr have f: "fst r \<le> line_num" and s: "line_num \<le> snd r"
      by (simp_all add: in_range_def)
    show ?thesis
    proof (cases "fst r < line_num")
      case True
      then have "r < (line_num, line_num)" by (simp add: less_prod_def)
      then have "\<not> (line_num, line_num) \<le> xs ! k" using k by simp
      with above [of k] k have kidx: "k < idx" by (cases "idx \<le> k") simp_all
      define q where "q = xs ! (idx - 1)"
      have i1: "idx - 1 < length xs" using kidx le by simp
      then have qs: "q \<in> set xs" by (simp add: q_def)
      have "q < (line_num, line_num)" unfolding q_def using kidx by (intro below) simp
      then have fq: "fst q \<le> line_num" by (auto simp: less_prod_def)
      have "r \<le> q" unfolding q_def k(2) [symmetric] using srt i1 kidx
        by (intro sorted_nth_mono) simp_all
      then have rq: "fst r \<le> fst q" by (auto simp: less_eq_prod_def)
      from wf qs st have wq: "fst q \<le> snd q" by simp
      from disj r qs st have "r = q \<or> snd r < fst q \<or> snd q < fst r" by blast
      with fq s rq wq have "q = r" by auto
      with inr i1 kidx have "hit_at line_num xs (int idx - 1)"
        by (simp add: hit_at_def q_def nat_diff_distrib')
      then show ?thesis ..
    next
      case False
      with f have eq: "fst r = line_num" by simp
      with s have "(line_num, line_num) \<le> r" by (simp add: less_eq_prod_def)
      then have "\<not> xs ! k < (line_num, line_num)" using k by simp
      with below [of k] have ik: "idx \<le> k" by (cases "k < idx") simp_all
      define q where "q = xs ! idx"
      have i2: "idx < length xs" using ik k by simp
      have "(line_num, line_num) \<le> q" unfolding q_def using i2 by (intro above) simp_all
      moreover have "q \<le> r" unfolding q_def k(2) [symmetric] using srt ik k
        by (intro sorted_nth_mono) simp_all
      ultimately have "in_range line_num q" using eq
        by (auto simp: less_eq_prod_def in_range_def)
      with i2 have "hit_at line_num xs (int idx)" by (simp add: hit_at_def q_def)
      then show ?thesis ..
    qed
  qed
  then show ?thesis
    unfolding b l using hit_at_in_set by blast
qed

text \<open>The hunks of a file with six changes, and a line in the fourth.\<close>

lemma is_line_in_ranges_bisect_disjoint_example:
  "is_line_in_ranges_bisect 16 [(1, 2), (4, 4), (7, 9), (15, 17), (20, 20), (30, 35)]
     = is_line_in_ranges_linear 16 [(1, 2), (4, 4), (7, 9), (15, 17), (20, 20), (30, 35)]
   \<and> is_line_in_ranges 16 [(1, 2), (4, 4), (7, 9), (15, 17), (20, 20), (30, 35)]"
proof -
  have "is_line_in_ranges_bisect 16 [(1, 2), (4, 4), (7, 9), (15, 17), (20, 20), (30, 35)]
     = is_line_in_ranges_linear 16 [(1, 2), (4, 4), (7, 9), (15, 17), (20, 20), (30, 35)]"
    by (rule is_line_in_ranges_bisect_disjoint) simp_all
  moreover have "is_line_in_ranges 16 [(1, 2), (4, 4), (7, 9), (15, 17), (20, 20), (30, 35)]"
    by code_simp
  ultimately show ?thesis ..
qed

text \<open>
  C1 (the two paths do not agree on every list): line 50 lies in the range (1, 100) of
  \<open>overlapping_ranges\<close>, and the linear scan says so; the list has six ranges, so
  \<open>is_line_in_ranges\<close> takes the bisect path, which looks only at (10, 11) and answers
  no.
\<close>

theorem is_line_in_ranges_overlapping:
  "is_line_in_ranges_linear 50 overlapping_ranges
   \<and> \<not> is_line_in_ranges_bisect 50 overlapping_ranges
   \<and> \<not> is_line_in_ranges 50 overlapping_ranges
   \<and> is_line_in_ranges 50 (butlast overlapping_ranges)"
  by code_simp

text \<open>
  C7: with the range set [(15, 17)], line 16 is in the ranges and line 20 is not; of two
  findings in the changed file, at lines 16 and 20, the filter keeps the first only.
\<close>

theorem is_line_in_ranges_16_20:
  "is_line_in_ranges 16 [(15, 17)]
   \<and> \<not> is_line_in_ranges 20 [(15, 17)]
   \<and> get_changed_ranges example_run ''tasks.c'' ''origin/main...HEAD'' ''.'' = Inr [(15, 17)]
   \<and> filter_errors_by_changed_lines example_run results_16_20 ''origin/main...HEAD'' ''.''
       = Inr [finding_16]"
  by code_simp

subsection \<open>get_changed_ranges\<close>


text \<open>
  A diff command that ends with a non-zero return code raises nothing: the function
  parses whatever the command has printed, and what the parser raises is caught too.
\<close>

lemma get_changed_ranges_completed:
  assumes "valid_git_diff_range git_diff_range"
    and "run (git_diff_cmd source_dir git_diff_range file_path) = Inr result"
  shows "get_changed_ranges run file_path git_diff_range source_dir
           = (case parse_diff_ranges (stdout result) of
                Inr ranges \<Rightarrow> Inr ranges
              | Inl e \<Rightarrow> (if is_Exception e then Inr [] else Inl e))"
  using assms by (simp add: get_changed_ranges_def changed_ranges_body_def)

text \<open>
  The digit limit of \<open>int\<close>: a hunk header whose start line has more than 4300 digits
  makes the loop of \<open>parse_diff_ranges\<close> raise \<open>ValueError\<close>, and when
  \<open>parse_diff_ranges\<close> raises it, \<open>get_changed_ranges\<close> returns the empty list.
\<close>

lemma py_int_too_many_digits:
  assumes "list_all is_digit ds" and "4300 < length ds"
  shows "py_int ds = Inl ValueError"
proof -
  from assms(2) have ne: "ds \<noteq> []" by auto
  have nsp: "\<not> is_c_space c" if "is_digit c" for c
    using that by (auto simp: is_digit_def is_c_space_def)
  from assms(1) ne have h: "is_digit (hd ds)" and l: "is_digit (last ds)"
    by (simp_all add: list_all_iff)
  have d1: "dropWhile is_c_space ds = ds"
    using ne nsp [OF h] by (cases ds) simp_all
  have d2: "dropWhile is_c_space (rev ds) = rev ds"
    using ne nsp [OF l] by (cases "rev ds") (simp_all add: last_rev [symmetric] hd_rev)
  have st: "strip ds = ds" by (simp add: strip_def d1 d2)
  have sg: "hd ds \<noteq> CHR ''-''" "hd ds \<noteq> CHR ''+''"
    using h by (auto simp: is_digit_def)
  have f: "filter is_digit ds = ds"
    using assms(1) by (simp add: list_all_iff)
  show ?thesis
    using assms(2) by (simp add: py_int_def st sg f Let_def int_max_str_digits_def)
qed

lemma line_ranges_too_many_digits:
  assumes "list_all is_digit ds" and "4300 < length ds"
  shows "line_ranges (''@@ +'' @ ds) = Inl ValueError"
proof -
  from assms(2) have ne: "ds \<noteq> []" by auto
  have t: "takeWhile is_digit ds = ds" and d: "dropWhile is_digit ds = []"
    using assms(1) by (simp_all add: list_all_iff)
  have "search_plus (''@@ +'' @ ds) = Some (ds, None)"
    using ne by (simp add: t d)
  then show ?thesis
    unfolding line_ranges_def
    by (simp add: startswith_def py_int_too_many_digits [OF assms])
qed

lemma get_changed_ranges_parse_error:
  assumes "valid_git_diff_range git_diff_range"
    and "run (git_diff_cmd source_dir git_diff_range file_path) = Inr result"
    and "parse_diff_ranges (stdout result) = Inl ValueError"
  shows "get_changed_ranges run file_path git_diff_range source_dir = Inr []"
  using assms
  by (simp add: get_changed_ranges_def changed_ranges_body_def is_Exception_def)

text \<open>
  \<open>int\<close> does not take the separators \<open>0x1C\<close> to \<open>0x1F\<close> for white space, although
  \<open>\s\<close> does.
\<close>

lemma py_int_separator: "py_int ([CHR 0x1F] @ ''16'') = Inl ValueError \<and> is_space (CHR 0x1F)"
  by code_simp

lemma get_changed_ranges_invalid_range:
  "\<not> valid_git_diff_range git_diff_range \<Longrightarrow>
     get_changed_ranges run file_path git_diff_range source_dir = Inl ValueError"
  by (simp add: get_changed_ranges_def)


section \<open>The findings: properties\<close>

subsection \<open>filter_errors_by_changed_lines\<close>

text \<open>The example report: which findings the filter keeps.\<close>

lemma filter_results_mixed:
  "filter_errors_by_changed_lines example_run results_mixed ''origin/main...HEAD'' ''.''
     = Inr [finding_16, finding_multi]"
  by code_simp

text \<open>The outer loop appends only errors whose id begins with \<open>misra-c2012\<close>.\<close>

lemma filter_loop_misra:
  assumes "filter_loop run git_diff_range source_dir cache filtered errs = Inr result"
    and "\<forall>e\<in>set filtered. startswith (get_default e ''id'' '''') ''misra-c2012''"
  shows "\<forall>e\<in>set result. startswith (get_default e ''id'' '''') ''misra-c2012''"
  using assms
proof (induction errs arbitrary: cache filtered)
  case Nil
  then show ?case by simp
next
  case (Cons err errs)
  show ?case
  proof (cases "startswith (get_default err ''id'' '''') ''misra-c2012''")
    case False
    with Cons.prems
    have "filter_loop run git_diff_range source_dir cache filtered errs = Inr result"
      by simp
    from Cons.IH [OF this Cons.prems(2)] show ?thesis .
  next
    case True
    with Cons.prems(1) obtain cache' hit where
      l: "filter_loop run git_diff_range source_dir cache'
            (if hit then filtered @ [err] else filtered) errs = Inr result"
      by (auto split: sum.splits)
    have "\<forall>e\<in>set (if hit then filtered @ [err] else filtered).
            startswith (get_default e ''id'' '''') ''misra-c2012''"
      using True Cons.prems(2) by simp
    from Cons.IH [OF l this] show ?thesis .
  qed
qed

text \<open>
  C9: every error in the list that \<open>filter_errors_by_changed_lines\<close> returns has an id
  beginning with \<open>misra-c2012\<close>; so a finding with another id is never in that list,
  wherever its locations lie.
\<close>

theorem filter_errors_only_misra:
  assumes "filter_errors_by_changed_lines run root git_diff_range source_dir = Inr filtered_errors"
    and "err \<in> set filtered_errors"
  shows "startswith (get_default err ''id'' '''') ''misra-c2012''"
  using filter_loop_misra [of run git_diff_range source_dir Map.empty "[]" _ filtered_errors]
    assms
  by (simp add: filter_errors_by_changed_lines_def)

text \<open>
  The theorem on the example report, where the finding \<open>nullPointer\<close> lies on the
  changed line 16 and is not kept.
\<close>

theorem filter_errors_only_misra_witness:
  "filter_errors_by_changed_lines example_run results_mixed ''origin/main...HEAD'' ''.''
     = Inr [finding_16, finding_multi]
   \<and> finding_multi \<in> set [finding_16, finding_multi]
   \<and> startswith (get_default finding_multi ''id'' '''') ''misra-c2012''"
proof -
  have m: "finding_multi \<in> set [finding_16, finding_multi]" by simp
  from filter_errors_only_misra [OF filter_results_mixed m] filter_results_mixed m
  show ?thesis by simp
qed

text \<open>The outer loop appends each error at most once.\<close>

lemma filter_loop_distinct:
  assumes "filter_loop run git_diff_range source_dir cache filtered errs = Inr result"
    and "distinct (map oid (filtered @ errs))"
  shows "distinct (map oid result)"
  using assms
proof (induction errs arbitrary: cache filtered)
  case Nil
  then show ?case by simp
next
  case (Cons err errs)
  show ?case
  proof (cases "startswith (get_default err ''id'' '''') ''misra-c2012''")
    case False
    with Cons.prems
    have l: "filter_loop run git_diff_range source_dir cache filtered errs = Inr result"
      by simp
    have "distinct (map oid (filtered @ errs))" using Cons.prems(2) by simp
    from Cons.IH [OF l this] show ?thesis .
  next
    case True
    with Cons.prems(1) obtain cache' hit where
      l: "filter_loop run git_diff_range source_dir cache'
            (if hit then filtered @ [err] else filtered) errs = Inr result"
      by (auto split: sum.splits)
    have "distinct (map oid ((if hit then filtered @ [err] else filtered) @ errs))"
      using Cons.prems(2) by simp
    from Cons.IH [OF l this] show ?thesis .
  qed
qed

text \<open>
  C10: the error elements of a report are distinct objects, and each of them is at most
  once in the list that \<open>filter_errors_by_changed_lines\<close> returns, however many of its
  locations lie in changed ranges.
\<close>

theorem filter_errors_no_duplicates:
  assumes "distinct (map oid (findall_descendants root ''error''))"
    and "filter_errors_by_changed_lines run root git_diff_range source_dir = Inr filtered_errors"
  shows "distinct (map oid filtered_errors)"
  using filter_loop_distinct [of run git_diff_range source_dir Map.empty "[]" _ filtered_errors]
    assms
  by (simp add: filter_errors_by_changed_lines_def)

text \<open>
  The theorem on the example report: \<open>finding_multi\<close> has two locations on changed
  lines and is kept once.
\<close>

theorem filter_errors_no_duplicates_witness:
  "map oid (findall_descendants results_mixed ''error'') = [1, 2, 3, 4]
   \<and> filter_errors_by_changed_lines example_run results_mixed ''origin/main...HEAD'' ''.''
       = Inr [finding_16, finding_multi]
   \<and> is_line_in_ranges 15 [(15, 17)] \<and> is_line_in_ranges 17 [(15, 17)]
   \<and> map oid [finding_16, finding_multi] = [1, 4]
   \<and> distinct (map oid [finding_16, finding_multi])"
proof -
  have o: "map oid (findall_descendants results_mixed ''error'') = [1, 2, 3, 4]"
    by code_simp
  then have d: "distinct (map oid (findall_descendants results_mixed ''error''))"
    by simp
  have r: "is_line_in_ranges 15 [(15, 17)] \<and> is_line_in_ranges 17 [(15, 17)]"
    by code_simp
  have k: "map oid [finding_16, finding_multi] = [1, 4]"
    by (simp add: finding_16_def finding_multi_def)
  from filter_errors_no_duplicates [OF d filter_results_mixed] o r k filter_results_mixed
  show ?thesis by simp
qed

subsection \<open>write_csv_output\<close>

lemma write_locations_extends:
  "\<exists>rest. fst (write_locations max_size error_id severity csvfile locations) = csvfile @ rest"
proof (induction locations arbitrary: csvfile)
  case Nil
  show ?case by simp
next
  case (Cons location locations)
  let ?cells = "[error_id, severity, get_default location ''file'' '''',
                 get_default location ''line'' '''', get_default location ''column'' '''']"
  show ?case
  proof (cases "limit_reached max_size csvfile ?cells")
    case True
    then show ?thesis by simp
  next
    case False
    from Cons.IH [of "csvfile @ csv_row ?cells"] obtain rest where
      "fst (write_locations max_size error_id severity (csvfile @ csv_row ?cells) locations)
         = (csvfile @ csv_row ?cells) @ rest" by blast
    with False show ?thesis by simp
  qed
qed

lemma write_errors_extends:
  "\<exists>rest. write_errors max_size csvfile errs = csvfile @ rest"
proof (induction errs arbitrary: csvfile)
  case Nil
  show ?case by simp
next
  case (Cons err errs)
  let ?w = "write_locations max_size
              (replace ''misra-c2012-'' '''' (get_default err ''id'' ''''))
              (get_default err ''severity'' '''') csvfile (findall err ''location'')"
  obtain f stop where w: "?w = (f, stop)" by (cases ?w)
  from write_locations_extends [of max_size _ _ csvfile "findall err ''location''"] w
  obtain r1 where f: "f = csvfile @ r1" by (metis fst_conv)
  show ?case
  proof (cases stop)
    case True
    with w f show ?thesis by simp
  next
    case False
    from Cons.IH [of f] obtain r2 where "write_errors max_size f errs = f @ r2" by blast
    with w f False show ?thesis by simp
  qed
qed

lemma csv_row_header:
  "csv_row csv_header = ''misra-c2012-rule,severity,file,line,column'' @ [CHR 0x0D, CHR 0x0A]"
  by code_simp

text \<open>
  C8: for every list of filtered errors and every size cap, given or not, the file that
  \<open>write_csv_output\<close> writes begins with the row
  \<open>misra-c2012-rule,severity,file,line,column\<close>.
\<close>

theorem write_csv_output_header:
  "\<exists>rest. write_csv_output filtered_errors max_size =
     ''misra-c2012-rule,severity,file,line,column'' @ [CHR 0x0D, CHR 0x0A] @ rest"
  using write_errors_extends [of max_size "csv_row csv_header" filtered_errors]
  by (simp add: write_csv_output_def csv_row_header)

text \<open>
  C2 (the file can be larger than the cap): with a cap of 67 bytes and the one finding
  \<open>finding_16\<close>, the header takes 44 bytes and the row is counted as 23, with its line
  feed only, so the test \<open>44 + 23 > 67\<close> fails and the row is written with carriage
  return and line feed: 68 bytes. And with a cap of 10 bytes and no finding, the header
  alone is written: 44 bytes.
\<close>

theorem write_csv_output_over_cap:
  "row_size [''1.2'', ''style'', ''tasks.c'', ''16'', ''1''] = 23
   \<and> length (csv_row [''1.2'', ''style'', ''tasks.c'', ''16'', ''1'']) = 24
   \<and> length (write_csv_output [finding_16] (Some 67)) = 68
   \<and> length (write_csv_output [] (Some 10)) = 44"
  by code_simp

section \<open>convert_misra_rules.py: properties\<close>

lemma match_rule_other:
  "c \<noteq> CHR ''R'' \<Longrightarrow> c \<noteq> CHR ''D'' \<Longrightarrow> match_rule (c # s) = None"
  by (simp add: match_rule_def startswith_def)

lemma search_rule_skip:
  "CHR ''R'' \<notin> set pre \<Longrightarrow> CHR ''D'' \<notin> set pre \<Longrightarrow> search_rule (pre @ s) = search_rule s"
  by (induction pre) (auto simp: match_rule_other)

lemma takeWhile_digit_stop:
  "post = [] \<or> \<not> is_digit (hd post) \<Longrightarrow> takeWhile is_digit post = []"
  by (cases post) auto

lemma match_rule_1_2:
  assumes "post = [] \<or> \<not> is_digit (hd post)"
  shows "match_rule (''Rule 1.2'' @ post) = Some ''1.2''"
  using takeWhile_digit_stop [OF assms]
  by (simp add: match_rule_def startswith_def is_digit_def is_space_def Let_def)

lemma match_rule_4_1:
  assumes "post = [] \<or> \<not> is_digit (hd post)"
  shows "match_rule (''Directive 4.1'' @ post) = Some ''4.1''"
  using takeWhile_digit_stop [OF assms]
  by (simp add: match_rule_def startswith_def is_digit_def is_space_def Let_def)

lemma search_rule_1_2:
  assumes "CHR ''R'' \<notin> set pre" and "CHR ''D'' \<notin> set pre"
    and "post = [] \<or> \<not> is_digit (hd post)"
  shows "search_rule (pre @ ''Rule 1.2'' @ post) = Some ''1.2''"
  using match_rule_1_2 [OF assms(3)] by (simp add: search_rule_skip assms(1,2))

lemma search_rule_4_1:
  assumes "CHR ''R'' \<notin> set pre" and "CHR ''D'' \<notin> set pre"
    and "post = [] \<or> \<not> is_digit (hd post)"
  shows "search_rule (pre @ ''Directive 4.1'' @ post) = Some ''4.1''"
  using match_rule_4_1 [OF assms(3)] by (simp add: search_rule_skip assms(1,2))

text \<open>
  C5: for a deviation list of two records whose deviation texts hold \<open>Rule 1.2\<close> and
  \<open>Directive 4.1\<close>, in that order, \<open>extract_rules\<close> returns exactly
  \<open>["misra-c2012-1.2", "misra-c2012-4.1"]\<close>. The texts may say more around the
  reference, as long as no \<open>R\<close> or \<open>D\<close> stands before it (where another reference
  could begin) and no digit follows it (which would belong to the number).
\<close>

theorem extract_rules_rule_and_directive:
  assumes "getitem d1 ''deviation'' = Inr (JString (pre1 @ ''Rule 1.2'' @ post1))"
    and "getitem d2 ''deviation'' = Inr (JString (pre2 @ ''Directive 4.1'' @ post2))"
    and "CHR ''R'' \<notin> set (pre1 @ pre2)" and "CHR ''D'' \<notin> set (pre1 @ pre2)"
    and "post1 = [] \<or> \<not> is_digit (hd post1)"
    and "post2 = [] \<or> \<not> is_digit (hd post2)"
  shows "extract_rules (JArray [d1, d2]) = Inr [''misra-c2012-1.2'', ''misra-c2012-4.1'']"
proof -
  have r1: "search_rule (pre1 @ ''Rule 1.2'' @ post1) = Some ''1.2''"
    using assms(3,4) by (intro search_rule_1_2 assms(5)) simp_all
  have r2: "search_rule (pre2 @ ''Directive 4.1'' @ post2) = Some ''4.1''"
    using assms(3,4) by (intro search_rule_4_1 assms(6)) simp_all
  show ?thesis
    unfolding extract_rules_def iterate_def
    by (simp add: assms(1,2) r1 r2 del: search_rule.simps append.simps)
qed

text \<open>
  The theorem on two records that also hold a reason, the second with words around the
  reference.
\<close>

theorem extract_rules_rule_and_directive_witness:
  "getitem deviation_rule ''deviation'' = Inr (JString ([] @ ''Rule 1.2'' @ []))
   \<and> getitem deviation_directive ''deviation''
       = Inr (JString (''see '' @ ''Directive 4.1'' @ '' (required)''))
   \<and> extract_rules (JArray [deviation_rule, deviation_directive])
       = Inr [''misra-c2012-1.2'', ''misra-c2012-4.1'']"
proof -
  have h1: "getitem deviation_rule ''deviation'' = Inr (JString ([] @ ''Rule 1.2'' @ []))"
    by (simp add: getitem_def deviation_rule_def)
  have h2: "getitem deviation_directive ''deviation''
              = Inr (JString (''see '' @ ''Directive 4.1'' @ '' (required)''))"
    by (simp add: getitem_def deviation_directive_def)
  have n1: "CHR ''R'' \<notin> set ([] @ ''see '')" and n2: "CHR ''D'' \<notin> set ([] @ ''see '')"
    by simp_all
  have p1: "([] :: string) = [] \<or> \<not> is_digit (hd [])" by simp
  have p2: "'' (required)'' = [] \<or> \<not> is_digit (hd '' (required)'')"
    by (simp add: is_digit_def)
  from extract_rules_rule_and_directive [OF h1 h2 n1 n2 p1 p2] h1 h2 show ?thesis
    by (simp del: append.simps)
qed

text \<open>
  What the \<open>except\<close> clause does catch: when opening or reading the URL raises
  \<open>URLError\<close> (or its subclass), or \<open>json.loads\<close> raises \<open>JSONDecodeError\<close> on the
  text read, \<open>fetch_misra_rules\<close> returns the empty list and the file that \<open>main\<close>
  then writes holds exactly the four static rules, one per line, in their order.
\<close>

lemma fetch_caught_static_rules:
  assumes "urlopen URL = Inl e \<or> (\<exists>text. urlopen URL = Inr text \<and> loads text = Inl e)"
    and "caught e"
  shows "fetch_misra_rules urlopen loads = Inr []
         \<and> write_config_file [] =
             ''missingIncludeSystem'' @ [CHR 0x0A] @ ''checkersReport'' @ [CHR 0x0A]
             @ ''unmatchedSuppression'' @ [CHR 0x0A] @ ''misra-config'' @ [CHR 0x0A]
         \<and> main urlopen loads = Inr (write_config_file [])"
proof -
  have "fetch_body urlopen loads = Inl e"
    using assms(1) by (auto simp: fetch_body_def)
  then have f: "fetch_misra_rules urlopen loads = Inr []"
    using assms(2) by (simp add: fetch_misra_rules_def)
  then show ?thesis
    by (simp add: main_def write_config_file_def static_rules_def)
qed

text \<open>The lemma for a network that is down, and for a response that is not JSON.\<close>

lemma fetch_caught_static_rules_example:
  "caught URLError \<and> caught JSONDecodeError
   \<and> fetch_misra_rules (\<lambda>url. Inl URLError) (\<lambda>text. Inr JNull) = Inr []
   \<and> main (\<lambda>url. Inl URLError) (\<lambda>text. Inr JNull) = Inr (write_config_file [])
   \<and> fetch_misra_rules (\<lambda>url. Inr ''<html>'') (\<lambda>text. Inl JSONDecodeError) = Inr []
   \<and> main (\<lambda>url. Inr ''<html>'') (\<lambda>text. Inl JSONDecodeError) = Inr (write_config_file [])"
proof -
  have c: "caught URLError" and j: "caught JSONDecodeError" by (simp_all add: caught_def)
  have u: "(\<lambda>url. Inl URLError :: py_exception + string) URL = Inl URLError
           \<or> (\<exists>text. (\<lambda>url. Inl URLError :: py_exception + string) URL = Inr text
                 \<and> (\<lambda>text. Inr JNull :: py_exception + json) text = Inl URLError)"
    by simp
  have d: "(\<lambda>url. Inr ''<html>'' :: py_exception + string) URL = Inl JSONDecodeError
           \<or> (\<exists>text. (\<lambda>url. Inr ''<html>'' :: py_exception + string) URL = Inr text
                 \<and> (\<lambda>text. Inl JSONDecodeError :: py_exception + json) text
                     = Inl JSONDecodeError)"
    by simp
  from fetch_caught_static_rules
         [where urlopen = "\<lambda>url. Inl URLError" and loads = "\<lambda>text. Inr JNull", OF u c]
       fetch_caught_static_rules
         [where urlopen = "\<lambda>url. Inr ''<html>''" and loads = "\<lambda>text. Inl JSONDecodeError",
          OF d j] c j
  show ?thesis by simp
qed

text \<open>
  C4 (a network error can escape): when the connection is reset while the response is
  read, the exception is a \<open>ConnectionResetError\<close>, which is no \<open>URLError\<close>. The
  \<open>except\<close> clause does not catch it: \<open>fetch_misra_rules\<close> returns no list, the
  exception leaves \<open>main\<close>, and \<open>write_config_file\<close> is never called, so no
  suppression file is written.
\<close>

theorem fetch_network_error_escapes:
  "\<not> caught ConnectionResetError
   \<and> fetch_misra_rules (\<lambda>url. Inl ConnectionResetError) loads = Inl ConnectionResetError
   \<and> main (\<lambda>url. Inl ConnectionResetError) loads = Inl ConnectionResetError"
  by (simp add: caught_def main_def fetch_misra_rules_def fetch_body_def)

text \<open>
  Likewise a response without the key \<open>deviations\<close> raises \<open>KeyError\<close>, which leaves
  \<open>fetch_misra_rules\<close> and \<open>main\<close>.
\<close>

lemma fetch_misra_rules_key_error:
  "main (\<lambda>url. Inr ''{}'') (\<lambda>text. Inr (JObject [])) = Inl KeyError"
  by code_simp

end
